theory Spec2Isabelle
  imports Main "HOL-Library.AList"
begin
section \<open>Python values used by the two scripts\<close>

text \<open>
  A Python \<open>str\<close> is modelled as a HOL \<open>string\<close>, one \<open>char\<close> per code point, so
  \<open>len\<close> is \<open>length\<close>. The whitespace and case tables below are Python's on the ASCII
  range (code points below 128), which holds every field name, code and example of the
  two scripts; Python's Unicode tables for higher code points are not modelled (such a
  character is kept as it is and is not whitespace here). The theorems about
  \<open>build_lookup\<close> are stated through the normalised code and the selected name and
  do not depend on which characters the tables change.
\<close>

datatype error =
    AttributeError
  | IndexError
  | TypeError
  | ValueError
  | RequestException
  | HTTPError nat
  | NotModelled

text \<open>A value stored in a row of \<open>csv.DictReader\<close>: a string, or \<open>None\<close> for a column
  the line was too short to fill.\<close>

datatype pyval = PNone | PStr string

type_synonym row = "string \<rightharpoonup> pyval"

text \<open>The output dictionary: Python keeps the keys in insertion order, and assigning
  to a key that is present replaces its value in place; \<open>AList.update\<close> does the same.\<close>

type_synonym lookup = "(string \<times> string) list"

definition is_space :: "char \<Rightarrow> bool" where
  "is_space c = (let n = (of_char c :: nat) in (9 \<le> n \<and> n \<le> 13) \<or> (28 \<le> n \<and> n \<le> 32))"

definition py_strip :: "string \<Rightarrow> string" where
  "py_strip s = rev (dropWhile is_space (rev (dropWhile is_space s)))"

definition upper_char :: "char \<Rightarrow> char" where
  "upper_char c = (let n = (of_char c :: nat) in if 97 \<le> n \<and> n \<le> 122 then char_of (n - 32) else c)"

definition py_upper :: "string \<Rightarrow> string" where
  "py_upper s = map upper_char s"

definition lower_char :: "char \<Rightarrow> char" where
  "lower_char c = (let n = (of_char c :: nat) in if 65 \<le> n \<and> n \<le> 90 then char_of (n + 32) else c)"

definition py_lower :: "string \<Rightarrow> string" where
  "py_lower s = map lower_char s"

fun py_join :: "string \<Rightarrow> string list \<Rightarrow> string" where
  "py_join sep [] = []"
| "py_join sep [x] = x"
| "py_join sep (x # y # ys) = x @ sep @ py_join sep (y # ys)"

text \<open>\<open>r.get(field)\<close>: the value, \<open>None\<close> when the key is missing; never a \<open>KeyError\<close>.\<close>

definition dict_get :: "row \<Rightarrow> string \<Rightarrow> pyval" where
  "dict_get r field = (case r field of None \<Rightarrow> PNone | Some v \<Rightarrow> v)"

definition truthy :: "pyval \<Rightarrow> bool" where
  "truthy v = (case v of PNone \<Rightarrow> False | PStr s \<Rightarrow> s \<noteq> [])"

text \<open>\<open>a or b\<close>: \<open>a\<close> when it is truthy, else \<open>b\<close>.\<close>

definition py_or :: "pyval \<Rightarrow> pyval \<Rightarrow> pyval" where
  "py_or a b = (if truthy a then a else b)"

text \<open>\<open>v.strip()\<close>: \<open>None\<close> has no such method, and the call raises.\<close>

definition strip_method :: "pyval \<Rightarrow> error + string" where
  "strip_method v = (case v of PNone \<Rightarrow> Inl AttributeError | PStr s \<Rightarrow> Inr (py_strip s))"

subsection \<open>The \<open>%\<close> operator and list indexing\<close>

text \<open>An argument of \<open>template % args\<close>: a string or an integer.\<close>

datatype fmtarg = FStr string | FInt int

text \<open>\<open>str(n)\<close> of a non-negative integer, and of any integer.\<close>

fun str_nat :: "nat \<Rightarrow> string" where
  "str_nat n = (if n < 10 then [char_of (48 + n)] else str_nat (n div 10) @ [char_of (48 + n mod 10)])"

definition str_int :: "int \<Rightarrow> string" where
  "str_int i = (if i < 0 then CHR ''-'' # str_nat (nat (- i)) else str_nat (nat i))"

text \<open>What \<open>%s\<close> inserts for an argument.\<close>

definition py_str :: "fmtarg \<Rightarrow> string" where
  "py_str a = (case a of FStr s \<Rightarrow> s | FInt i \<Rightarrow> str_int i)"

text \<open>
  \<open>template % args\<close>. The template is read from left to right; \<open>%s\<close> takes the next
  argument as it is, \<open>%d\<close> takes the next argument, which must be an integer, and \<open>%%\<close>
  is a percent sign. Too few arguments, arguments left over and a string given to \<open>%d\<close>
  raise \<open>TypeError\<close>; a template that ends in \<open>%\<close> raises \<open>ValueError\<close>. The
  arguments are copied, never scanned. The two templates of \<open>gen_tz.py\<close> use only
  \<open>%s\<close> and \<open>%d\<close>; the other conversions of Python are not modelled.
\<close>

fun py_format :: "string \<Rightarrow> fmtarg list \<Rightarrow> error + string" where
  "py_format [] [] = Inr []"
| "py_format [] (a # args) = Inl TypeError"
| "py_format (c # cs) args =
     (if c \<noteq> CHR ''%'' then
        (case py_format cs args of Inl e \<Rightarrow> Inl e | Inr s \<Rightarrow> Inr (c # s))
      else
        (case cs of
           [] \<Rightarrow> Inl ValueError
         | d # ds \<Rightarrow>
             if d = CHR ''%'' then
               (case py_format ds args of Inl e \<Rightarrow> Inl e | Inr s \<Rightarrow> Inr (CHR ''%'' # s))
             else if d = CHR ''s'' then
               (case args of
                  [] \<Rightarrow> Inl TypeError
                | a # rest \<Rightarrow>
                    (case py_format ds rest of Inl e \<Rightarrow> Inl e | Inr s \<Rightarrow> Inr (py_str a @ s)))
             else if d = CHR ''d'' then
               (case args of
                  [] \<Rightarrow> Inl TypeError
                | FStr x # rest \<Rightarrow> Inl TypeError
                | FInt i # rest \<Rightarrow>
                    (case py_format ds rest of Inl e \<Rightarrow> Inl e | Inr s \<Rightarrow> Inr (str_int i @ s)))
             else Inl NotModelled))"

text \<open>\<open>xs[i]\<close> for an index that is not negative: \<open>IndexError\<close> out of range.\<close>

definition py_index :: "'a list \<Rightarrow> nat \<Rightarrow> error + 'a" where
  "py_index xs i = (if i < length xs then Inr (xs ! i) else Inl IndexError)"

section \<open>The Lookup Builder: fetch_flightwatch_lookup.py\<close>

text \<open>The expression \<open>(r.get(field) or "").strip()\<close> of all three functions.\<close>

definition field_text :: "row \<Rightarrow> string \<Rightarrow> error + string" where
  "field_text r field = strip_method (py_or (dict_get r field) (PStr []))"

text \<open>The loop \<open>for field in (...): v = ...; if v: return v\<close> shared by \<open>airline_name\<close>
  and \<open>aircraft_name\<close>: \<open>Some v\<close> is the early return, \<open>None\<close> the loop running out.\<close>

fun first_nonempty :: "row \<Rightarrow> string list \<Rightarrow> error + string option" where
  "first_nonempty r [] = Inr None"
| "first_nonempty r (field # fields) =
     (case field_text r field of
        Inl e \<Rightarrow> Inl e
      | Inr v \<Rightarrow> if v \<noteq> [] then Inr (Some v) else first_nonempty r fields)"

definition airline_fields :: "string list" where
  "airline_fields = [''name'', ''name2'', ''alias'']"

definition airline_name :: "row \<Rightarrow> error + string" where
  "airline_name r =
     (case first_nonempty r airline_fields of
        Inl e \<Rightarrow> Inl e
      | Inr (Some v) \<Rightarrow> Inr v
      | Inr None \<Rightarrow> Inr [])"

definition aircraft_fields :: "string list" where
  "aircraft_fields = [''name'', ''model'', ''model_name'', ''text'', ''type'']"

definition aircraft_name :: "row \<Rightarrow> error + string" where
  "aircraft_name r =
     (case first_nonempty r aircraft_fields of
        Inl e \<Rightarrow> Inl e
      | Inr (Some v) \<Rightarrow> Inr v
      | Inr None \<Rightarrow>
          (case field_text r ''manufacturer'' of
             Inl e \<Rightarrow> Inl e
           | Inr a \<Rightarrow>
               (case field_text r ''model'' of
                  Inl e \<Rightarrow> Inl e
                | Inr b \<Rightarrow> Inr (py_strip (py_join '' '' (filter (\<lambda>s. s \<noteq> []) [a, b]))))))"

text \<open>\<open>code = (r.get(code_field) or "").strip().upper()\<close>\<close>

definition normalized_code :: "row \<Rightarrow> string \<Rightarrow> error + string" where
  "normalized_code r code_field =
     (case field_text r code_field of Inl e \<Rightarrow> Inl e | Inr s \<Rightarrow> Inr (py_upper s))"

text \<open>The loop of \<open>build_lookup\<close> over the rows, with the dictionary \<open>out\<close> as its
  state. The bounds are Python integers.\<close>

fun build_lookup_loop ::
  "row list \<Rightarrow> string \<Rightarrow> (row \<Rightarrow> error + string) \<Rightarrow> int \<Rightarrow> int \<Rightarrow> lookup \<Rightarrow> error + lookup" where
  "build_lookup_loop [] code_field name_fn min_len max_len out = Inr out"
| "build_lookup_loop (r # rows) code_field name_fn min_len max_len out =
     (case normalized_code r code_field of
        Inl e \<Rightarrow> Inl e
      | Inr code \<Rightarrow>
          if \<not> (min_len \<le> int (length code) \<and> int (length code) \<le> max_len)
          then build_lookup_loop rows code_field name_fn min_len max_len out
          else (case name_fn r of
                  Inl e \<Rightarrow> Inl e
                | Inr name \<Rightarrow>
                    if name \<noteq> []
                    then build_lookup_loop rows code_field name_fn min_len max_len
                           (AList.update code name out)
                    else build_lookup_loop rows code_field name_fn min_len max_len out))"

text \<open>\<open>build_lookup(rows, code_field, name_fn, min_len=3, max_len=4)\<close>; the script's two
  calls leave the bounds at their defaults, 3 and 4.\<close>

definition build_lookup ::
  "row list \<Rightarrow> string \<Rightarrow> (row \<Rightarrow> error + string) \<Rightarrow> int \<Rightarrow> int \<Rightarrow> error + lookup" where
  "build_lookup rows code_field name_fn min_len max_len =
     build_lookup_loop rows code_field name_fn min_len max_len []"

subsection \<open>The script's run\<close>

definition AIRLINE_SRC :: string where
  "AIRLINE_SRC = ''https://raw.githubusercontent.com/opentraveldata/opentraveldata/master/opentraveldata/optd_airlines.csv''"

definition AIRCRAFT_SRC :: string where
  "AIRCRAFT_SRC = ''https://raw.githubusercontent.com/opentraveldata/opentraveldata/master/opentraveldata/optd_aircraft.csv''"

text \<open>
  What \<open>requests.get(url, timeout=20)\<close> meets: no response (a connection error or a
  timeout, which \<open>requests\<close> raises as an exception) or a response with its status
  code and body text.
\<close>

datatype response = NoResponse | Response nat string

text \<open>
  The world the script runs in: the URLs requested so far, in order; the files written,
  each holding the dictionary handed to \<open>json.dump\<close> (the JSON text itself is not
  modelled); the lines printed. Writing a file is taken to succeed.
\<close>

record world =
  requested :: "string list"
  files :: "string \<rightharpoonup> lookup"
  printed :: "string list"

text \<open>The network answers the \<open>n\<close>-th request of the run (counted from 0) for a URL;
  an answer may change from one request to the next, so a retry would be visible.\<close>

type_synonym network = "nat \<Rightarrow> string \<Rightarrow> response"

text \<open>
  \<open>load_rows(url)\<close>: \<open>requests.get\<close> raises when there is no response,
  \<open>raise_for_status\<close> raises for a status from 400 to 599, and otherwise the body is
  parsed. The parser \<open>dict_reader\<close> stands for
  \<open>list(csv.DictReader(text.splitlines(), delimiter="^"))\<close> of the standard library and is
  a parameter.
\<close>

definition load_rows ::
  "network \<Rightarrow> (string \<Rightarrow> row list) \<Rightarrow> string \<Rightarrow> world \<Rightarrow> (error + row list) \<times> world" where
  "load_rows net dict_reader url w =
     (let w' = w\<lparr>requested := requested w @ [url]\<rparr> in
      case net (length (requested w)) url of
        NoResponse \<Rightarrow> (Inl RequestException, w')
      | Response status text \<Rightarrow>
          if 400 \<le> status \<and> status < 600 then (Inl (HTTPError status), w')
          else (Inr (dict_reader text), w'))"

text \<open>The \<open>__main__\<close> block: both lookups are built before the \<open>print\<close> and the two
  \<open>json.dump\<close> calls; an exception ends the run where it is raised.\<close>

definition main :: "network \<Rightarrow> (string \<Rightarrow> row list) \<Rightarrow> world \<Rightarrow> (error + unit) \<times> world" where
  "main net dict_reader w0 =
     (case load_rows net dict_reader AIRLINE_SRC w0 of
        (Inl e, w1) \<Rightarrow> (Inl e, w1)
      | (Inr airline_rows, w1) \<Rightarrow>
          (case build_lookup airline_rows ''3char_code'' airline_name 3 4 of
             Inl e \<Rightarrow> (Inl e, w1)
           | Inr airlines \<Rightarrow>
               (case load_rows net dict_reader AIRCRAFT_SRC w1 of
                  (Inl e, w2) \<Rightarrow> (Inl e, w2)
                | (Inr aircraft_rows, w2) \<Rightarrow>
                    (case build_lookup aircraft_rows ''icao_code'' aircraft_name 3 4 of
                       Inl e \<Rightarrow> (Inl e, w2)
                     | Inr aircraft \<Rightarrow>
                         (let w3 = w2\<lparr>printed := printed w2 @
                                     [''airlines='' @ str_nat (length airlines) @
                                      '', aircraft='' @ str_nat (length aircraft)]\<rparr>;
                              w4 = w3\<lparr>files := (files w3)(''airlines.json'' \<mapsto> airlines)\<rparr>;
                              w5 = w4\<lparr>files := (files w4)(''aircraft.json'' \<mapsto> aircraft)\<rparr>
                          in (Inr (), w5))))))"

section \<open>The Timezone Table Generator: gen_tz.py\<close>

text \<open>
  The script reads \<open>rows = list(csv.reader(open(...)))\<close>, a list of rows, each a list of
  strings; the model starts from \<open>rows\<close>. The first seven lines:
\<close>

definition header_lines :: "string list" where
  "header_lines =
     [''#pragma once'', '''', ''#include <stdint.h>'', '''',
      ''struct IanaPosixEntry { const char *iana; const char *posix; };'', '''',
      ''static const IanaPosixEntry IANA_POSIX_DB[] PROGMEM = {'']"

text \<open>\<open>'    {"%s", "%s"},' % (r[0].lower(), r[1])\<close>\<close>

definition entry_line :: "string list \<Rightarrow> error + string" where
  "entry_line r =
     (case py_index r 0 of
        Inl e \<Rightarrow> Inl e
      | Inr iana \<Rightarrow>
          (case py_index r 1 of
             Inl e \<Rightarrow> Inl e
           | Inr posix \<Rightarrow> py_format ''    {\"%s\", \"%s\"},'' [FStr (py_lower iana), FStr posix]))"

text \<open>The loop \<open>for r in rows: lines.append(...)\<close>, with \<open>lines\<close> as its state.\<close>

fun append_entries :: "string list list \<Rightarrow> string list \<Rightarrow> error + string list" where
  "append_entries [] lines = Inr lines"
| "append_entries (r # rows) lines =
     (case entry_line r of
        Inl e \<Rightarrow> Inl e
      | Inr l \<Rightarrow> append_entries rows (lines @ [l]))"

text \<open>The list \<open>lines\<close> when the script reaches \<open>write_text\<close>.\<close>

definition gen_tz_lines :: "string list list \<Rightarrow> error + string list" where
  "gen_tz_lines rows =
     (case append_entries rows header_lines of
        Inl e \<Rightarrow> Inl e
      | Inr lines \<Rightarrow>
          (case py_format ''static const size_t IANA_POSIX_DB_COUNT = %d;''
                  [FInt (int (length rows))] of
             Inl e \<Rightarrow> Inl e
           | Inr count_line \<Rightarrow> Inr (((lines @ [''};'']) @ ['''']) @ [count_line])))"

text \<open>\<open>'\n'.join(lines)\<close>, the text written to \<open>firmware/config/IanaPosixDb.h\<close>.\<close>

definition gen_tz :: "string list list \<Rightarrow> error + string" where
  "gen_tz rows =
     (case gen_tz_lines rows of
        Inl e \<Rightarrow> Inl e
      | Inr lines \<Rightarrow> Inr (py_join [CHR 0x0A] lines))"

section \<open>Concrete inputs and auxiliary predicates\<close>

text \<open>The two example rows of the specification.\<close>

definition airline_example_row :: row where
  "airline_example_row = map_of
     [(''3char_code'', PStr ''aa ''), (''name'', PStr ''''),
      (''name2'', PStr ''American Airlines''), (''alias'', PStr ''AA'')]"

definition aircraft_example_row :: row where
  "aircraft_example_row = map_of
     [(''icao_code'', PStr ''a320''), (''manufacturer'', PStr ''Airbus''),
      (''model'', PStr ''A320''), (''name'', PStr ''''), (''model_name'', PStr ''''),
      (''text'', PStr ''''), (''type'', PStr '''')]"

text \<open>Two rows with the same normalised code \<open>"AAL"\<close>, a row with a \<open>None\<close> value and
  a row whose code is \<open>None\<close>.\<close>

definition earlier_row :: row where
  "earlier_row = map_of [(''3char_code'', PStr ''AAL''), (''name'', PStr ''First'')]"

definition later_row :: row where
  "later_row = map_of [(''3char_code'', PStr '' aal''), (''name2'', PStr ''Second '')]"

definition sparse_row :: row where
  "sparse_row = map_of [(''3char_code'', PStr ''dlh''), (''name'', PNone), (''alias'', PStr ''Lufthansa'')]"

definition codeless_row :: row where
  "codeless_row = map_of [(''name'', PStr ''Nameless Air''), (''3char_code'', PNone)]"

text \<open>A retrieval fails when there is no response or the status is one that
  \<open>raise_for_status\<close> rejects.\<close>

definition fetch_fails :: "response \<Rightarrow> bool" where
  "fetch_fails resp =
     (case resp of NoResponse \<Rightarrow> True | Response status text \<Rightarrow> 400 \<le> status \<and> status < 600)"

text \<open>A network on which the airline table is served and the aircraft table is not; a
  parser that finds no rows; a world in which nothing has happened yet.\<close>

definition aircraft_down :: network where
  "aircraft_down n url =
     (if url = AIRLINE_SRC then Response 200 ''3char_code^name''
      else if n < 1 then NoResponse else Response 503 ''Service Unavailable'')"

definition no_rows :: "string \<Rightarrow> row list" where
  "no_rows text = []"

definition fresh_world :: world where
  "fresh_world = \<lparr>requested = [], files = map_of [], printed = []\<rparr>"

text \<open>The number a decimal numeral denotes, to read the emitted count back.\<close>

definition decimal_value :: "string \<Rightarrow> nat" where
  "decimal_value s = foldl (\<lambda>acc c. 10 * acc + (of_char c - 48)) 0 s"

text \<open>A timezone table with a repeated zone.\<close>

definition zone_rows :: "string list list" where
  "zone_rows =
     [[''America/New_York'', ''EST5EDT,M3.2.0,M11.1.0''],
      [''Europe/Berlin'', ''CET-1CEST,M3.5.0,M10.5.0/3''],
      [''America/New_York'', ''EST5EDT,M3.2.0,M11.1.0'']]"

section \<open>Properties of the Lookup Builder\<close>

lemma field_text_Inr:
  "field_text r f = Inr (py_strip (case dict_get r f of PNone \<Rightarrow> [] | PStr s \<Rightarrow> s))"
  by (cases "dict_get r f") (simp_all add: field_text_def py_or_def truthy_def strip_method_def py_strip_def)

lemma field_text_total: "\<exists>v. field_text r f = Inr v"
  by (simp add: field_text_Inr)

lemma first_nonempty_total: "\<exists>v. first_nonempty r fs = Inr v"
proof (induction fs)
  case Nil
  show ?case by simp
next
  case (Cons f fs)
  obtain v where "field_text r f = Inr v" using field_text_total by blast
  with Cons show ?case by simp
qed

lemma airline_name_total: "\<exists>v. airline_name r = Inr v"
proof -
  obtain o1 where "first_nonempty r airline_fields = Inr o1"
    using first_nonempty_total by blast
  then show ?thesis by (cases o1) (simp_all add: airline_name_def)
qed

lemma aircraft_name_total: "\<exists>v. aircraft_name r = Inr v"
proof -
  obtain o1 where o1: "first_nonempty r aircraft_fields = Inr o1"
    using first_nonempty_total by blast
  obtain a where a: "field_text r ''manufacturer'' = Inr a" using field_text_total by blast
  obtain b where b: "field_text r ''model'' = Inr b" using field_text_total by blast
  from o1 a b show ?thesis by (cases o1) (simp_all add: aircraft_name_def)
qed

lemma normalized_code_total: "\<exists>c. normalized_code r cf = Inr c"
  by (simp add: normalized_code_def field_text_Inr)

lemma loop_append:
  "build_lookup_loop (xs @ ys) cf nf mn mx out =
     (case build_lookup_loop xs cf nf mn mx out of
        Inl e \<Rightarrow> Inl e
      | Inr out' \<Rightarrow> build_lookup_loop ys cf nf mn mx out')"
  by (induction xs arbitrary: out) (auto split: sum.splits)

lemma loop_total:
  assumes "\<forall>r\<in>set rows. \<exists>v. nf r = Inr v"
  shows "\<exists>d. build_lookup_loop rows cf nf mn mx out = Inr d"
  using assms
proof (induction rows arbitrary: out)
  case Nil
  show ?case by simp
next
  case (Cons r rows)
  obtain c where c: "normalized_code r cf = Inr c" using normalized_code_total by blast
  obtain v where v: "nf r = Inr v" using Cons.prems by auto
  from Cons.prems have rest: "\<forall>r\<in>set rows. \<exists>v. nf r = Inr v" by simp
  show ?case using c v Cons.IH[OF rest] by simp
qed

lemma loop_skip:
  assumes "normalized_code r cf = Inr c"
    and "\<not> (mn \<le> int (length c) \<and> int (length c) \<le> mx)"
  shows "build_lookup_loop (r # rows) cf nf mn mx out = build_lookup_loop rows cf nf mn mx out"
  using assms by simp

lemma loop_keeps:
  assumes "build_lookup_loop zs cf nf mn mx out = Inr d"
    and "\<forall>r\<in>set zs. normalized_code r cf = Inr c \<longrightarrow> nf r = Inr []"
  shows "map_of d c = map_of out c"
  using assms
proof (induction zs arbitrary: out)
  case Nil
  then show ?case by simp
next
  case (Cons r zs)
  then show ?case
    by (auto split: sum.splits if_splits simp: update_conv')
qed

lemma loop_dom:
  assumes "build_lookup_loop zs cf nf mn mx out = Inr d" and "c \<in> dom (map_of out)"
  shows "c \<in> dom (map_of d)"
  using assms
proof (induction zs arbitrary: out)
  case Nil
  then show ?case by simp
next
  case (Cons r zs)
  show ?case
  proof (cases "normalized_code r cf")
    case (Inl e)
    with Cons.prems show ?thesis by simp
  next
    case (Inr code)
    show ?thesis
    proof (cases "\<not> (mn \<le> int (length code) \<and> int (length code) \<le> mx)")
      case True
      with Inr Cons show ?thesis by simp
    next
      case False
      show ?thesis
      proof (cases "nf r")
        case (Inl e)
        with Inr False Cons.prems show ?thesis by simp
      next
        case name: (Inr name)
        show ?thesis
        proof (cases "name = []")
          case True
          with Inr False name Cons show ?thesis by simp
        next
          case ne: False
          from Cons.prems(2) have "c \<in> dom (map_of (AList.update code name out))"
            by (simp add: update_conv' dom_def)
          moreover from Inr False name ne Cons.prems(1)
          have "build_lookup_loop zs cf nf mn mx (AList.update code name out) = Inr d" by simp
          ultimately show ?thesis by (rule Cons.IH[rotated])
        qed
      qed
    qed
  qed
qed

lemma loop_hit:
  assumes "normalized_code r cf = Inr c"
    and "mn \<le> int (length c)" and "int (length c) \<le> mx"
    and "nf r = Inr name" and "name \<noteq> []"
  shows "build_lookup_loop (r # rows) cf nf mn mx out =
         build_lookup_loop rows cf nf mn mx (AList.update c name out)"
  using assms by simp

lemma first_nonempty_first:
  assumes "i < length fs" and "field_text r (fs ! i) = Inr v" and "v \<noteq> []"
    and "\<forall>j<i. field_text r (fs ! j) = Inr []"
  shows "first_nonempty r fs = Inr (Some v)"
  using assms
proof (induction fs arbitrary: i)
  case Nil
  then show ?case by simp
next
  case (Cons f fs)
  show ?case
  proof (cases i)
    case 0
    with Cons.prems show ?thesis by simp
  next
    case (Suc k)
    with Cons.prems have "field_text r f = Inr []" by auto
    moreover have "first_nonempty r fs = Inr (Some v)"
    proof (rule Cons.IH)
      show "k < length fs" using Cons.prems(1) Suc by simp
      show "field_text r (fs ! k) = Inr v" using Cons.prems(2) Suc by simp
      show "v \<noteq> []" by fact
      show "\<forall>j<k. field_text r (fs ! j) = Inr []"
      proof (intro allI impI)
        fix j assume "j < k"
        then have "Suc j < i" using Suc by simp
        with Cons.prems(4) have "field_text r ((f # fs) ! Suc j) = Inr []" by blast
        then show "field_text r (fs ! j) = Inr []" by simp
      qed
    qed
    ultimately show ?thesis by simp
  qed
qed

text \<open>
  Claim C1. A row whose code, trimmed and uppercased, has a length outside the bounds
  (3 and 4 by default) is excluded: wherever it stands in the input, \<open>build_lookup\<close>
  returns what it returns for the input without that row, whatever the name function
  and the row's name fields are.
\<close>

theorem excluded_row_contributes_nothing:
  assumes "normalized_code r code_field = Inr code"
    and "\<not> (min_len \<le> int (length code) \<and> int (length code) \<le> max_len)"
  shows "build_lookup (xs @ r # ys) code_field name_fn min_len max_len =
         build_lookup (xs @ ys) code_field name_fn min_len max_len"
proof -
  have step: "build_lookup_loop (r # ys) code_field name_fn min_len max_len out =
        build_lookup_loop ys code_field name_fn min_len max_len out" for out
    using assms by (rule loop_skip)
  show ?thesis
    by (simp add: build_lookup_def loop_append step del: build_lookup_loop.simps split: sum.splits)
qed

theorem excluded_row_contributes_nothing_witness:
  "normalized_code airline_example_row ''3char_code'' = Inr ''AA'' \<and>
   build_lookup ([earlier_row] @ airline_example_row # [sparse_row]) ''3char_code'' airline_name 3 4 =
   build_lookup ([earlier_row] @ [sparse_row]) ''3char_code'' airline_name 3 4 \<and>
   build_lookup ([earlier_row] @ [sparse_row]) ''3char_code'' airline_name 3 4 =
     Inr [(''AAL'', ''First''), (''DLH'', ''Lufthansa'')]"
proof -
  have c: "normalized_code airline_example_row ''3char_code'' = Inr ''AA''"
    by code_simp
  have l: "\<not> (3 \<le> int (length ''AA'') \<and> int (length ''AA'') \<le> 4)"
    by simp
  have v: "build_lookup ([earlier_row] @ [sparse_row]) ''3char_code'' airline_name 3 4 =
     Inr [(''AAL'', ''First''), (''DLH'', ''Lufthansa'')]"
    by code_simp
  from excluded_row_contributes_nothing [OF c l, of "[earlier_row]" "[sparse_row]" airline_name] c v
  show ?thesis by simp
qed

text \<open>
  Claim C2. The example row has the code \<open>"aa "\<close>, which normalises to \<open>"AA"\<close>, two
  characters long: under the default bounds 3 and 4 the row is filtered out and the map
  is empty, so it has no key \<open>"AA"\<close>.
\<close>

theorem airline_example_counterexample:
  "build_lookup [airline_example_row] ''3char_code'' airline_name 3 4 = Inr []"
  by code_simp

text \<open>
  Claim C2, amended. For the example row the code normalises to \<open>"AA"\<close> and
  \<open>airline_name\<close> selects \<open>"American Airlines"\<close> (from \<open>name2\<close>, \<open>name\<close> being
  empty); with the default bounds the map is empty, and with \<open>min_len\<close> lowered to 2
  the map is \<open>{"AA": "American Airlines"}\<close>.
\<close>

theorem airline_example_amended:
  "normalized_code airline_example_row ''3char_code'' = Inr ''AA'' \<and>
   airline_name airline_example_row = Inr ''American Airlines'' \<and>
   build_lookup [airline_example_row] ''3char_code'' airline_name 3 4 = Inr [] \<and>
   build_lookup [airline_example_row] ''3char_code'' airline_name 2 4 =
     Inr [(''AA'', ''American Airlines'')]"
  by code_simp

text \<open>
  Claim C3. In the example row \<open>model\<close> is \<open>"A320"\<close>, the second candidate of
  \<open>aircraft_name\<close> and the first that is not empty, so the loop returns it and the
  manufacturer fallback is never reached: the key \<open>"A320"\<close> is mapped to \<open>"A320"\<close>, not
  to \<open>"Airbus A320"\<close>.
\<close>

theorem aircraft_example_counterexample:
  "build_lookup [aircraft_example_row] ''icao_code'' aircraft_name 3 4 = Inr [(''A320'', ''A320'')]"
  by code_simp

text \<open>
  Claim C3, amended. For the example row the code normalises to \<open>"A320"\<close>, the first
  non-empty candidate is \<open>model\<close>, and the map is \<open>{"A320": "A320"}\<close>. The fallback
  runs only when \<open>name\<close>, \<open>model\<close>, \<open>model_name\<close>, \<open>text\<close> and \<open>type\<close> are all
  empty: the same row with an empty \<open>model\<close> is named \<open>"Airbus"\<close>.
\<close>

theorem aircraft_example_amended:
  "normalized_code aircraft_example_row ''icao_code'' = Inr ''A320'' \<and>
   first_nonempty aircraft_example_row aircraft_fields = Inr (Some ''A320'') \<and>
   aircraft_name aircraft_example_row = Inr ''A320'' \<and>
   build_lookup [aircraft_example_row] ''icao_code'' aircraft_name 3 4 = Inr [(''A320'', ''A320'')] \<and>
   aircraft_name (aircraft_example_row(''model'' \<mapsto> PStr '''')) = Inr ''Airbus''"
  by code_simp

text \<open>
  Claim C4. The claim is quantified over every row, also one that a later row with the
  same normalised code follows. The first of the two rows below has the valid code
  \<open>"AAL"\<close> and \<open>"First"\<close> as its first non-empty candidate, yet the map holds the
  later row's \<open>"Second"\<close> under \<open>"AAL"\<close>.
\<close>

theorem duplicate_code_counterexample:
  "normalized_code earlier_row ''3char_code'' = Inr ''AAL'' \<and>
   field_text earlier_row (airline_fields ! 0) = Inr ''First'' \<and>
   build_lookup [earlier_row, later_row] ''3char_code'' airline_name 3 4 =
     Inr [(''AAL'', ''Second'')] \<and>
   map_of [(''AAL'', ''Second'')] ''AAL'' \<noteq> Some ''First''"
  by code_simp

lemma name_fn_first:
  assumes "(name_fn, candidates) = (airline_name, airline_fields) \<or>
           (name_fn, candidates) = (aircraft_name, aircraft_fields)"
    and "first_nonempty r candidates = Inr (Some v)"
  shows "name_fn r = Inr v"
  using assms by (auto simp: airline_name_def aircraft_name_def)

lemma name_fn_total:
  assumes "(name_fn, candidates) = (airline_name, airline_fields) \<or>
           (name_fn, candidates) = (aircraft_name, aircraft_fields)"
  shows "\<exists>v. name_fn r = Inr v"
  using assms airline_name_total aircraft_name_total by auto

lemma build_lookup_split:
  assumes tot: "\<forall>r. \<exists>v. name_fn r = Inr v"
    and code: "normalized_code r cf = Inr c"
    and lo: "mn \<le> int (length c)" and hi: "int (length c) \<le> mx"
    and name: "name_fn r = Inr n" and ne: "n \<noteq> []"
  shows "\<exists>d. build_lookup (xs @ r # ys) cf name_fn mn mx = Inr d \<and> c \<in> dom (map_of d) \<and>
           ((\<forall>r'\<in>set ys. normalized_code r' cf = Inr c \<longrightarrow> name_fn r' = Inr []) \<longrightarrow>
              map_of d c = Some n)"
proof -
  obtain d0 where d0: "build_lookup_loop xs cf name_fn mn mx [] = Inr d0"
    using loop_total tot by blast
  let ?d1 = "AList.update c n d0"
  obtain d where d: "build_lookup_loop ys cf name_fn mn mx ?d1 = Inr d"
    using loop_total tot by blast
  have step: "build_lookup_loop (r # ys) cf name_fn mn mx d0 =
              build_lookup_loop ys cf name_fn mn mx ?d1"
    using code lo hi name ne by (rule loop_hit)
  have whole: "build_lookup (xs @ r # ys) cf name_fn mn mx = Inr d"
    by (simp add: build_lookup_def loop_append d0 step d del: build_lookup_loop.simps)
  have in1: "c \<in> dom (map_of ?d1)"
    by (simp add: update_conv')
  have dom: "c \<in> dom (map_of d)"
    using d in1 by (rule loop_dom)
  have last: "map_of d c = Some n"
    if "\<forall>r'\<in>set ys. normalized_code r' cf = Inr c \<longrightarrow> name_fn r' = Inr []"
  proof -
    have "map_of d c = map_of ?d1 c" using d that by (rule loop_keeps)
    then show ?thesis by (simp add: update_conv')
  qed
  from whole dom last show ?thesis by blast
qed

text \<open>
  Claim C4, amended. Take \<open>build_lookup\<close> with \<open>airline_name\<close> or \<open>aircraft_name\<close> and a
  row, anywhere in the input, whose normalised code is within the bounds and whose
  candidate \<open>i\<close> is the first that is not empty after trimming. Then \<open>build_lookup\<close>
  returns a map that contains the code, and the code is mapped to that candidate
  provided no later row with the same normalised code selects a non-empty name.
\<close>

theorem valid_row_code_present:
  assumes "(name_fn, candidates) = (airline_name, airline_fields) \<or>
           (name_fn, candidates) = (aircraft_name, aircraft_fields)"
    and "normalized_code r code_field = Inr code"
    and "min_len \<le> int (length code)" and "int (length code) \<le> max_len"
    and "i < length candidates" and "field_text r (candidates ! i) = Inr v" and "v \<noteq> []"
    and "\<forall>j<i. field_text r (candidates ! j) = Inr []"
  shows "\<exists>d. build_lookup (xs @ r # ys) code_field name_fn min_len max_len = Inr d \<and>
           code \<in> dom (map_of d) \<and>
           ((\<forall>r'\<in>set ys. normalized_code r' code_field = Inr code \<longrightarrow> name_fn r' = Inr []) \<longrightarrow>
              map_of d code = Some v)"
proof -
  have first: "first_nonempty r candidates = Inr (Some v)"
    using assms(5-8) by (rule first_nonempty_first)
  have name: "name_fn r = Inr v"
    using assms(1) first by (rule name_fn_first)
  have tot: "\<forall>r. \<exists>v. name_fn r = Inr v"
    using name_fn_total [OF assms(1)] by blast
  show ?thesis
    using tot assms(2-4) name assms(7) by (rule build_lookup_split)
qed

theorem valid_row_code_present_witness:
  "build_lookup ([earlier_row] @ later_row # [sparse_row]) ''3char_code'' airline_name 3 4 =
     Inr [(''AAL'', ''Second''), (''DLH'', ''Lufthansa'')] \<and>
   map_of [(''AAL'', ''Second''), (''DLH'', ''Lufthansa'')] ''AAL'' = Some ''Second''"
proof -
  have sel: "(airline_name, airline_fields) = (airline_name, airline_fields) \<or>
             (airline_name, airline_fields) = (aircraft_name, aircraft_fields)"
    by simp
  have code: "normalized_code later_row ''3char_code'' = Inr ''AAL''" by code_simp
  have lo: "3 \<le> int (length ''AAL'')" by simp
  have hi: "int (length ''AAL'') \<le> 4" by simp
  have i: "1 < length airline_fields" by (simp add: airline_fields_def)
  have v: "field_text later_row (airline_fields ! 1) = Inr ''Second''" by code_simp
  have ne: "''Second'' \<noteq> []" by simp
  have before: "\<forall>j<1. field_text later_row (airline_fields ! j) = Inr []"
  proof (intro allI impI)
    fix j :: nat assume "j < 1"
    then have "j = 0" by simp
    moreover have "field_text later_row (airline_fields ! 0) = Inr []" by code_simp
    ultimately show "field_text later_row (airline_fields ! j) = Inr []" by simp
  qed
  have after: "\<forall>r'\<in>set [sparse_row].
      normalized_code r' ''3char_code'' = Inr ''AAL'' \<longrightarrow> airline_name r' = Inr []"
  proof -
    have "normalized_code sparse_row ''3char_code'' = Inr ''DLH''" by code_simp
    then show ?thesis by simp
  qed
  have val: "build_lookup ([earlier_row] @ later_row # [sparse_row]) ''3char_code'' airline_name 3 4 =
     Inr [(''AAL'', ''Second''), (''DLH'', ''Lufthansa'')]" by code_simp
  from valid_row_code_present [OF sel code lo hi i v ne before, of "[earlier_row]" "[sparse_row]"]
    after val
  show ?thesis by auto
qed

text \<open>
  Claim C5. Two rows \<open>r1\<close> and \<open>r2\<close>, \<open>r1\<close> before \<open>r2\<close>, normalise to the same
  code, pass the length filter and select the non-empty names \<open>n1\<close> and \<open>n2\<close>. The
  later of the two being the last row that writes this code (no row after \<open>r2\<close> has the
  code and a non-empty name), the map holds \<open>n2\<close> under the code, whatever rows stand
  before, between and after them. The name function is any that does not raise, as
  \<open>airline_name\<close> and \<open>aircraft_name\<close> are.
\<close>

theorem later_duplicate_wins:
  assumes "\<forall>r. \<exists>v. name_fn r = Inr v"
    and "normalized_code r1 code_field = Inr code"
    and "normalized_code r2 code_field = Inr code"
    and "min_len \<le> int (length code)" and "int (length code) \<le> max_len"
    and "name_fn r1 = Inr n1" and "n1 \<noteq> []"
    and "name_fn r2 = Inr n2" and "n2 \<noteq> []"
    and "\<forall>r\<in>set zs. normalized_code r code_field = Inr code \<longrightarrow> name_fn r = Inr []"
  shows "\<exists>d. build_lookup (xs @ r1 # ys @ r2 # zs) code_field name_fn min_len max_len = Inr d \<and>
           map_of d code = Some n2"
proof -
  have "\<exists>d. build_lookup ((xs @ r1 # ys) @ r2 # zs) code_field name_fn min_len max_len = Inr d \<and>
          code \<in> dom (map_of d) \<and>
          ((\<forall>r'\<in>set zs. normalized_code r' code_field = Inr code \<longrightarrow> name_fn r' = Inr []) \<longrightarrow>
             map_of d code = Some n2)"
    using assms(1) assms(3) assms(4) assms(5) assms(8) assms(9) by (rule build_lookup_split)
  with assms(10) show ?thesis by auto
qed

theorem later_duplicate_wins_witness:
  "build_lookup ([sparse_row] @ earlier_row # [airline_example_row] @ later_row # [])
     ''3char_code'' airline_name 3 4 = Inr [(''DLH'', ''Lufthansa''), (''AAL'', ''Second'')] \<and>
   airline_name earlier_row = Inr ''First'' \<and> airline_name later_row = Inr ''Second''"
proof -
  have tot: "\<forall>r. \<exists>v. airline_name r = Inr v" using airline_name_total by blast
  have c1: "normalized_code earlier_row ''3char_code'' = Inr ''AAL''" by code_simp
  have c2: "normalized_code later_row ''3char_code'' = Inr ''AAL''" by code_simp
  have lo: "3 \<le> int (length ''AAL'')" by simp
  have hi: "int (length ''AAL'') \<le> 4" by simp
  have n1: "airline_name earlier_row = Inr ''First''" by code_simp
  have n2: "airline_name later_row = Inr ''Second''" by code_simp
  have ne1: "''First'' \<noteq> []" by simp
  have ne2: "''Second'' \<noteq> []" by simp
  have none: "\<forall>r\<in>set []. normalized_code r ''3char_code'' = Inr ''AAL'' \<longrightarrow> airline_name r = Inr []"
    by simp
  have val: "build_lookup ([sparse_row] @ earlier_row # [airline_example_row] @ later_row # [])
     ''3char_code'' airline_name 3 4 = Inr [(''DLH'', ''Lufthansa''), (''AAL'', ''Second'')]"
    by code_simp
  from later_duplicate_wins [OF tot c1 c2 lo hi n1 ne1 n2 ne2 none, of "[sparse_row]" "[airline_example_row]"]
    val n1 n2
  show ?thesis by simp
qed

lemma absent_field_text:
  assumes "r f = None \<or> r f = Some PNone"
  shows "field_text r f = Inr []"
  using assms
  by (auto simp: field_text_def dict_get_def py_or_def truthy_def strip_method_def py_strip_def)

lemma filled_field_text:
  assumes "r f = None \<or> r f = Some PNone"
  shows "field_text (r(f \<mapsto> PStr [])) g = field_text r g"
proof (cases "g = f")
  case True
  have "field_text (r(f \<mapsto> PStr [])) f = Inr []"
    by (simp add: field_text_def dict_get_def py_or_def truthy_def strip_method_def py_strip_def)
  with True absent_field_text [of r f, OF assms] show ?thesis by simp
next
  case False
  then show ?thesis by (simp add: field_text_def dict_get_def)
qed

lemma same_text_first_nonempty:
  assumes "\<And>g. field_text r' g = field_text r g"
  shows "first_nonempty r' fs = first_nonempty r fs"
  by (induction fs) (simp_all add: assms split: sum.splits)

lemma same_text_airline_name:
  assumes "\<And>g. field_text r' g = field_text r g"
  shows "airline_name r' = airline_name r"
  unfolding airline_name_def same_text_first_nonempty [of r' r, OF assms] by (rule refl)

lemma same_text_aircraft_name:
  assumes "\<And>g. field_text r' g = field_text r g"
  shows "aircraft_name r' = aircraft_name r"
  unfolding aircraft_name_def same_text_first_nonempty [of r' r, OF assms] assms by (rule refl)

lemma same_text_normalized_code:
  assumes "\<And>g. field_text r' g = field_text r g"
  shows "normalized_code r' cf = normalized_code r cf"
  unfolding normalized_code_def assms by (rule refl)

lemma filled_build_lookup:
  assumes "normalized_code r' cf = normalized_code r cf" and "nf r' = nf r"
  shows "build_lookup (xs @ r' # ys) cf nf mn mx = build_lookup (xs @ r # ys) cf nf mn mx"
proof -
  have step: "build_lookup_loop (r' # ys) cf nf mn mx out = build_lookup_loop (r # ys) cf nf mn mx out"
    for out
    by (simp add: assms split: sum.splits)
  show ?thesis
    by (simp add: build_lookup_def loop_append step del: build_lookup_loop.simps split: sum.splits)
qed

lemma build_lookup_total:
  assumes "\<forall>r. \<exists>v. nf r = Inr v"
  shows "\<exists>d. build_lookup rows cf nf mn mx = Inr d"
  unfolding build_lookup_def using assms by (intro loop_total) blast

text \<open>
  Claim C9. \<open>airline_name\<close>, \<open>aircraft_name\<close> and \<open>build_lookup\<close> with either of them
  return a value for every row and every list of rows: the \<open>AttributeError\<close> of
  \<open>None.strip()\<close> is never reached. A field \<open>f\<close> that is missing or \<open>None\<close> reads as
  the empty string: as a candidate it is skipped, the two name functions and
  \<open>build_lookup\<close> return what they return when the field holds \<open>""\<close>, and as the code
  field it normalises to \<open>""\<close>, so the row is excluded under the default bounds.
\<close>

theorem missing_field_reads_as_empty:
  "(\<exists>a. airline_name r = Inr a) \<and>
   (\<exists>a. aircraft_name r = Inr a) \<and>
   (\<exists>d. build_lookup rows code_field airline_name min_len max_len = Inr d) \<and>
   (\<exists>d. build_lookup rows code_field aircraft_name min_len max_len = Inr d) \<and>
   (r f = None \<or> r f = Some PNone \<longrightarrow>
      field_text r f = Inr [] \<and>
      first_nonempty r (f # candidates) = first_nonempty r candidates \<and>
      airline_name (r(f \<mapsto> PStr [])) = airline_name r \<and>
      aircraft_name (r(f \<mapsto> PStr [])) = aircraft_name r \<and>
      build_lookup (xs @ r(f \<mapsto> PStr []) # ys) code_field airline_name min_len max_len =
        build_lookup (xs @ r # ys) code_field airline_name min_len max_len \<and>
      build_lookup (xs @ r(f \<mapsto> PStr []) # ys) code_field aircraft_name min_len max_len =
        build_lookup (xs @ r # ys) code_field aircraft_name min_len max_len \<and>
      normalized_code r f = Inr [] \<and>
      build_lookup (xs @ r # ys) f name_fn 3 4 = build_lookup (xs @ ys) f name_fn 3 4)"
proof -
  have t1: "\<exists>a. airline_name r = Inr a" by (rule airline_name_total)
  have t2: "\<exists>a. aircraft_name r = Inr a" by (rule aircraft_name_total)
  have t3: "\<exists>d. build_lookup rows code_field airline_name min_len max_len = Inr d"
    using airline_name_total by (intro build_lookup_total) blast
  have t4: "\<exists>d. build_lookup rows code_field aircraft_name min_len max_len = Inr d"
    using aircraft_name_total by (intro build_lookup_total) blast
  have rest: "field_text r f = Inr [] \<and>
      first_nonempty r (f # candidates) = first_nonempty r candidates \<and>
      airline_name (r(f \<mapsto> PStr [])) = airline_name r \<and>
      aircraft_name (r(f \<mapsto> PStr [])) = aircraft_name r \<and>
      build_lookup (xs @ r(f \<mapsto> PStr []) # ys) code_field airline_name min_len max_len =
        build_lookup (xs @ r # ys) code_field airline_name min_len max_len \<and>
      build_lookup (xs @ r(f \<mapsto> PStr []) # ys) code_field aircraft_name min_len max_len =
        build_lookup (xs @ r # ys) code_field aircraft_name min_len max_len \<and>
      normalized_code r f = Inr [] \<and>
      build_lookup (xs @ r # ys) f name_fn 3 4 = build_lookup (xs @ ys) f name_fn 3 4"
    if absent: "r f = None \<or> r f = Some PNone"
  proof -
    have a: "field_text r f = Inr []" by (rule absent_field_text [of r f, OF absent])
    have b: "first_nonempty r (f # candidates) = first_nonempty r candidates" using a by simp
    have same: "field_text (r(f \<mapsto> PStr [])) g = field_text r g" for g
      by (rule filled_field_text [of r f, OF absent])
    have c: "airline_name (r(f \<mapsto> PStr [])) = airline_name r"
      using same by (rule same_text_airline_name)
    have d: "aircraft_name (r(f \<mapsto> PStr [])) = aircraft_name r"
      using same by (rule same_text_aircraft_name)
    have n: "normalized_code (r(f \<mapsto> PStr [])) code_field = normalized_code r code_field"
      using same by (rule same_text_normalized_code)
    have e: "build_lookup (xs @ r(f \<mapsto> PStr []) # ys) code_field airline_name min_len max_len =
        build_lookup (xs @ r # ys) code_field airline_name min_len max_len"
      using n c by (rule filled_build_lookup)
    have g: "build_lookup (xs @ r(f \<mapsto> PStr []) # ys) code_field aircraft_name min_len max_len =
        build_lookup (xs @ r # ys) code_field aircraft_name min_len max_len"
      using n d by (rule filled_build_lookup)
    have h: "normalized_code r f = Inr []" using a by (simp add: normalized_code_def py_upper_def)
    have skip: "build_lookup_loop (r # ys) f name_fn 3 4 out = build_lookup_loop ys f name_fn 3 4 out"
      for out using h by simp
    have k: "build_lookup (xs @ r # ys) f name_fn 3 4 = build_lookup (xs @ ys) f name_fn 3 4"
      by (simp add: build_lookup_def loop_append skip del: build_lookup_loop.simps split: sum.splits)
    from a b c d e g h k show ?thesis by blast
  qed
  from t1 t2 t3 t4 rest show ?thesis by blast
qed

theorem missing_field_reads_as_empty_witness:
  "airline_name (sparse_row(''name'' \<mapsto> PStr [])) = airline_name sparse_row \<and>
   airline_name sparse_row = Inr ''Lufthansa'' \<and>
   build_lookup ([earlier_row] @ codeless_row # [sparse_row]) ''3char_code'' airline_name 3 4 =
     build_lookup ([earlier_row] @ [sparse_row]) ''3char_code'' airline_name 3 4 \<and>
   build_lookup ([earlier_row] @ codeless_row # [sparse_row]) ''3char_code'' airline_name 3 4 =
     Inr [(''AAL'', ''First''), (''DLH'', ''Lufthansa'')]"
proof -
  have a1: "sparse_row ''name'' = None \<or> sparse_row ''name'' = Some PNone"
    by (simp add: sparse_row_def)
  have a2: "codeless_row ''3char_code'' = None \<or> codeless_row ''3char_code'' = Some PNone"
    by (simp add: codeless_row_def)
  have v1: "airline_name sparse_row = Inr ''Lufthansa''" by code_simp
  have v2: "build_lookup ([earlier_row] @ codeless_row # [sparse_row]) ''3char_code'' airline_name 3 4 =
     Inr [(''AAL'', ''First''), (''DLH'', ''Lufthansa'')]" by code_simp
  from missing_field_reads_as_empty [of sparse_row "[]" "''3char_code''" 3 4 "''name''" "[]" "[]" "[]" airline_name]
    a1
  have w1: "airline_name (sparse_row(''name'' \<mapsto> PStr [])) = airline_name sparse_row" by blast
  from missing_field_reads_as_empty [of codeless_row "[]" "''3char_code''" 3 4 "''3char_code''" "[]"
      "[earlier_row]" "[sparse_row]" airline_name] a2
  have w2: "build_lookup ([earlier_row] @ codeless_row # [sparse_row]) ''3char_code'' airline_name 3 4 =
     build_lookup ([earlier_row] @ [sparse_row]) ''3char_code'' airline_name 3 4" by blast
  from w1 v1 w2 v2 show ?thesis by blast
qed

lemma load_rows_fails:
  assumes "fetch_fails (net (length (requested w)) url)"
  shows "\<exists>e. load_rows net dict_reader url w = (Inl e, w\<lparr>requested := requested w @ [url]\<rparr>)"
  using assms by (auto simp: load_rows_def fetch_fails_def Let_def split: response.splits)

lemma load_rows_succeeds:
  assumes "\<not> fetch_fails (net (length (requested w)) url)"
  shows "\<exists>rows. load_rows net dict_reader url w = (Inr rows, w\<lparr>requested := requested w @ [url]\<rparr>)"
  using assms by (auto simp: load_rows_def fetch_fails_def Let_def split: response.splits)

text \<open>
  Claim C6. When the retrieval of the airline table fails, or that of the aircraft table
  (the second request of the run) does, the run ends with the exception, no file is
  written and nothing is printed: the files are those from before the run, so a failure
  on the aircraft table leaves \<open>airlines.json\<close> unwritten too. Each URL is requested
  once at most and the failed request is the last one: nothing is retried.
\<close>

theorem failed_fetch_writes_nothing:
  assumes "fetch_fails (net (length (requested w)) AIRLINE_SRC) \<or>
           fetch_fails (net (Suc (length (requested w))) AIRCRAFT_SRC)"
  shows "\<exists>e w'. main net dict_reader w = (Inl e, w') \<and>
           files w' = files w \<and> printed w' = printed w \<and>
           requested w' = requested w @
             (if fetch_fails (net (length (requested w)) AIRLINE_SRC)
              then [AIRLINE_SRC] else [AIRLINE_SRC, AIRCRAFT_SRC])"
proof (cases "fetch_fails (net (length (requested w)) AIRLINE_SRC)")
  case True
  let ?w1 = "w\<lparr>requested := requested w @ [AIRLINE_SRC]\<rparr>"
  from load_rows_fails [where net=net and w=w and url=AIRLINE_SRC, OF True] obtain e where
    "load_rows net dict_reader AIRLINE_SRC w = (Inl e, ?w1)" by blast
  then have "main net dict_reader w = (Inl e, ?w1)" by (simp add: main_def)
  with True show ?thesis by simp
next
  case False
  let ?w1 = "w\<lparr>requested := requested w @ [AIRLINE_SRC]\<rparr>"
  let ?w2 = "?w1\<lparr>requested := requested ?w1 @ [AIRCRAFT_SRC]\<rparr>"
  from load_rows_succeeds [where net=net and w=w and url=AIRLINE_SRC, OF False] obtain rows where
    first: "load_rows net dict_reader AIRLINE_SRC w = (Inr rows, ?w1)" by blast
  obtain airlines where
    airlines: "build_lookup rows ''3char_code'' airline_name 3 4 = Inr airlines"
    using build_lookup_total airline_name_total by blast
  from assms False have "fetch_fails (net (length (requested ?w1)) AIRCRAFT_SRC)" by simp
  from load_rows_fails [where net=net and w="?w1" and url=AIRCRAFT_SRC, OF this] obtain e where
    second: "load_rows net dict_reader AIRCRAFT_SRC ?w1 = (Inl e, ?w2)" by blast
  have "main net dict_reader w = (Inl e, ?w2)"
    by (simp add: main_def first airlines second)
  with False show ?thesis by simp
qed

theorem failed_fetch_writes_nothing_witness:
  "main aircraft_down no_rows fresh_world =
     (Inl (HTTPError 503),
      \<lparr>requested = [AIRLINE_SRC, AIRCRAFT_SRC], files = map_of [], printed = []\<rparr>) \<and>
   files (snd (main aircraft_down no_rows fresh_world)) ''airlines.json'' = None"
proof -
  have h: "fetch_fails (aircraft_down (length (requested fresh_world)) AIRLINE_SRC) \<or>
           fetch_fails (aircraft_down (Suc (length (requested fresh_world))) AIRCRAFT_SRC)"
    by (simp add: fetch_fails_def aircraft_down_def fresh_world_def AIRLINE_SRC_def AIRCRAFT_SRC_def)
  have val: "main aircraft_down no_rows fresh_world =
     (Inl (HTTPError 503),
      \<lparr>requested = [AIRLINE_SRC, AIRCRAFT_SRC], files = map_of [], printed = []\<rparr>)"
    by (simp add: main_def load_rows_def aircraft_down_def no_rows_def fresh_world_def
        build_lookup_def AIRLINE_SRC_def AIRCRAFT_SRC_def)
  from failed_fetch_writes_nothing [OF h, of no_rows] val
  show ?thesis by (simp add: fresh_world_def)
qed

lemma main_success:
  assumes "\<not> fetch_fails (net (length (requested w)) AIRLINE_SRC)"
    and "\<not> fetch_fails (net (Suc (length (requested w))) AIRCRAFT_SRC)"
  shows "\<exists>w'. main net dict_reader w = (Inr (), w') \<and>
           ''airlines.json'' \<in> dom (files w') \<and> ''aircraft.json'' \<in> dom (files w')"
proof -
  let ?w1 = "w\<lparr>requested := requested w @ [AIRLINE_SRC]\<rparr>"
  let ?w2 = "?w1\<lparr>requested := requested ?w1 @ [AIRCRAFT_SRC]\<rparr>"
  from load_rows_succeeds [where net=net and w=w and url=AIRLINE_SRC, OF assms(1)] obtain rows where
    first: "load_rows net dict_reader AIRLINE_SRC w = (Inr rows, ?w1)" by blast
  obtain airlines where
    airlines: "build_lookup rows ''3char_code'' airline_name 3 4 = Inr airlines"
    using build_lookup_total airline_name_total by blast
  from assms(2) have "\<not> fetch_fails (net (length (requested ?w1)) AIRCRAFT_SRC)" by simp
  from load_rows_succeeds [where net=net and w="?w1" and url=AIRCRAFT_SRC, OF this] obtain rows2 where
    second: "load_rows net dict_reader AIRCRAFT_SRC ?w1 = (Inr rows2, ?w2)" by blast
  obtain aircraft where
    aircraft: "build_lookup rows2 ''icao_code'' aircraft_name 3 4 = Inr aircraft"
    using build_lookup_total aircraft_name_total by blast
  show ?thesis
    by (simp add: main_def first airlines second aircraft Let_def)
qed

section \<open>Properties of the Timezone Table Generator\<close>

declare str_nat.simps [simp del]

lemma decimal_value_str_nat: "decimal_value (str_nat n) = n"
proof (induction n rule: str_nat.induct)
  case (1 n)
  show ?case
  proof (cases "n < 10")
    case True
    then have "of_char (char_of (48 + n) :: char) = 48 + n" by simp
    then show ?thesis using True by (subst str_nat.simps) (simp add: decimal_value_def)
  next
    case False
    have d: "of_char (char_of (48 + n mod 10) :: char) = 48 + n mod 10"
      by simp
    have "decimal_value (str_nat (n div 10)) = n div 10" using 1 False by simp
    then show ?thesis using False d
      by (subst str_nat.simps) (simp add: decimal_value_def)
  qed
qed

lemma entry_line_pair:
  "entry_line (iana # posix # others) =
     Inr (''    {\"'' @ py_lower iana @ ''\", \"'' @ posix @ ''\"},'')"
  by (simp add: entry_line_def py_index_def py_str_def)

lemma count_line:
  "py_format ''static const size_t IANA_POSIX_DB_COUNT = %d;'' [FInt (int n)] =
     Inr (''static const size_t IANA_POSIX_DB_COUNT = '' @ str_nat n @ '';'')"
  by (simp add: str_int_def)

lemma append_entries_map:
  assumes "\<forall>r\<in>set rows. length r = 2"
  shows "\<exists>entries. append_entries rows lines = Inr (lines @ entries) \<and>
           length entries = length rows \<and>
           (\<forall>i<length rows. entry_line (rows ! i) = Inr (entries ! i))"
  using assms
proof (induction rows arbitrary: lines)
  case Nil
  show ?case by simp
next
  case (Cons r rows)
  from Cons.prems have "length r = 2" by simp
  then obtain iana posix where r: "r = [iana, posix]"
    by (cases r; cases "tl r") auto
  obtain l where l: "entry_line r = Inr l"
    unfolding r using entry_line_pair by blast
  from Cons.prems have rest: "\<forall>r\<in>set rows. length r = 2" by simp
  from Cons.IH [OF rest, of "lines @ [l]"] obtain entries where
    e: "append_entries rows (lines @ [l]) = Inr ((lines @ [l]) @ entries)"
      "length entries = length rows"
      "\<forall>i<length rows. entry_line (rows ! i) = Inr (entries ! i)"
    by blast
  have "append_entries (r # rows) lines = Inr (lines @ (l # entries))"
    using l e(1) by simp
  moreover have "length (l # entries) = length (r # rows)" using e(2) by simp
  moreover have "\<forall>i<length (r # rows). entry_line ((r # rows) ! i) = Inr ((l # entries) ! i)"
  proof (intro allI impI)
    fix i assume "i < length (r # rows)"
    then show "entry_line ((r # rows) ! i) = Inr ((l # entries) ! i)"
      using l e(3) by (cases i) simp_all
  qed
  ultimately show ?case by blast
qed

lemma zone_rows_lines:
  "gen_tz_lines zone_rows =
     Inr (header_lines @
          [''    {\"america/new_york\", \"EST5EDT,M3.2.0,M11.1.0\"},'',
           ''    {\"europe/berlin\", \"CET-1CEST,M3.5.0,M10.5.0/3\"},'',
           ''    {\"america/new_york\", \"EST5EDT,M3.2.0,M11.1.0\"},''] @
          [''};'', '''', ''static const size_t IANA_POSIX_DB_COUNT = 3;''])"
  by code_simp

text \<open>
  Claim C7. For rows of two columns the generator returns the seven header lines, then
  one entry per row, the entry at position \<open>i\<close> being that of row \<open>i\<close> (so a repeated
  zone is emitted again), then the closing lines; the count line holds the decimal
  numeral of the number of rows. The text written to the header file is these lines
  joined by newlines.
\<close>

theorem one_entry_per_row_in_order:
  assumes "\<forall>r\<in>set rows. length r = 2"
  shows "\<exists>entries.
           gen_tz_lines rows =
             Inr (header_lines @ entries @
                  [''};'', '''',
                   ''static const size_t IANA_POSIX_DB_COUNT = '' @ str_nat (length rows) @ '';'']) \<and>
           length entries = length rows \<and>
           (\<forall>i<length rows. entry_line (rows ! i) = Inr (entries ! i)) \<and>
           decimal_value (str_nat (length rows)) = length rows \<and>
           gen_tz rows =
             Inr (py_join [CHR 0x0A]
                    (header_lines @ entries @
                     [''};'', [],
                      ''static const size_t IANA_POSIX_DB_COUNT = '' @ str_nat (length rows) @ '';'']))"
proof -
  from append_entries_map [OF assms, of header_lines] obtain entries where
    e: "append_entries rows header_lines = Inr (header_lines @ entries)"
      "length entries = length rows"
      "\<forall>i<length rows. entry_line (rows ! i) = Inr (entries ! i)"
    by blast
  have lines: "gen_tz_lines rows =
          Inr (header_lines @ entries @
               [''};'', [],
                ''static const size_t IANA_POSIX_DB_COUNT = '' @ str_nat (length rows) @ '';''])"
    unfolding gen_tz_lines_def e(1) count_line by simp
  have written: "gen_tz rows =
          Inr (py_join [CHR 0x0A]
                 (header_lines @ entries @
                  [''};'', [],
                   ''static const size_t IANA_POSIX_DB_COUNT = '' @ str_nat (length rows) @ '';'']))"
    unfolding gen_tz_def lines by simp
  from lines e(2,3) decimal_value_str_nat written show ?thesis by blast
qed

theorem one_entry_per_row_in_order_witness:
  "gen_tz_lines zone_rows =
     Inr (header_lines @
          [''    {\"america/new_york\", \"EST5EDT,M3.2.0,M11.1.0\"},'',
           ''    {\"europe/berlin\", \"CET-1CEST,M3.5.0,M10.5.0/3\"},'',
           ''    {\"america/new_york\", \"EST5EDT,M3.2.0,M11.1.0\"},''] @
          [''};'', '''', ''static const size_t IANA_POSIX_DB_COUNT = 3;'']) \<and>
   decimal_value (str_nat (length zone_rows)) = 3"
proof -
  have two: "\<forall>r\<in>set zone_rows. length r = 2" by (simp add: zone_rows_def)
  note val = zone_rows_lines
  have len: "length zone_rows = 3" by (simp add: zone_rows_def)
  from one_entry_per_row_in_order [OF two] have "decimal_value (str_nat (length zone_rows)) = length zone_rows"
    by blast
  with val len show ?thesis by simp
qed

lemma append_entries_shape:
  assumes "append_entries rows lines = Inr ls"
  shows "\<exists>entries. ls = lines @ entries \<and> length entries = length rows \<and>
           (\<forall>i<length rows. entry_line (rows ! i) = Inr (entries ! i))"
  using assms
proof (induction rows arbitrary: lines)
  case Nil
  then show ?case by simp
next
  case (Cons r rows)
  from Cons.prems obtain l where l: "entry_line r = Inr l"
    and rest: "append_entries rows (lines @ [l]) = Inr ls"
    by (auto split: sum.splits)
  from Cons.IH [OF rest] obtain entries where
    e: "ls = (lines @ [l]) @ entries" "length entries = length rows"
      "\<forall>i<length rows. entry_line (rows ! i) = Inr (entries ! i)"
    by blast
  have "ls = lines @ (l # entries)" using e(1) by simp
  moreover have "length (l # entries) = length (r # rows)" using e(2) by simp
  moreover have "\<forall>i<length (r # rows). entry_line ((r # rows) ! i) = Inr ((l # entries) ! i)"
  proof (intro allI impI)
    fix i assume "i < length (r # rows)"
    then show "entry_line ((r # rows) ! i) = Inr ((l # entries) ! i)"
      using l e(3) by (cases i) simp_all
  qed
  ultimately show ?case by blast
qed

text \<open>
  Claim C8. In the generated lines, the entry of row \<open>i\<close> with the columns \<open>iana\<close> and
  \<open>posix\<close> stands at position \<open>i\<close> after the header and consists of the lowercased
  \<open>iana\<close> and of \<open>posix\<close> as it is, between the fixed punctuation.
\<close>

theorem entry_holds_lowered_iana_and_posix:
  assumes "gen_tz_lines rows = Inr ls" and "i < length rows" and "rows ! i = [iana, posix]"
  shows "length ls = length header_lines + length rows + 3 \<and>
         ls ! (length header_lines + i) =
           ''    {\"'' @ py_lower iana @ ''\", \"'' @ posix @ ''\"},''"
proof -
  from assms(1) obtain body c where
    body: "append_entries rows header_lines = Inr body"
    and ls: "ls = ((body @ [''};'']) @ [[]]) @ [c]"
    by (auto simp: gen_tz_lines_def split: sum.splits)
  from append_entries_shape [OF body] obtain entries where
    e: "body = header_lines @ entries" "length entries = length rows"
      "\<forall>i<length rows. entry_line (rows ! i) = Inr (entries ! i)"
    by blast
  have "entry_line (rows ! i) = Inr (entries ! i)" using e(3) assms(2) by blast
  then have line: "entries ! i = ''    {\"'' @ py_lower iana @ ''\", \"'' @ posix @ ''\"},''"
    unfolding assms(3) entry_line_pair by simp
  have "ls ! (length header_lines + i) = entries ! i"
    using assms(2) e(2) unfolding ls e(1) by (simp add: nth_append)
  with line have "ls ! (length header_lines + i) =
           ''    {\"'' @ py_lower iana @ ''\", \"'' @ posix @ ''\"},''" by simp
  moreover have "length ls = length header_lines + length rows + 3"
    unfolding ls e(1) using e(2) by simp
  ultimately show ?thesis by blast
qed

theorem entry_holds_lowered_iana_and_posix_witness:
  "py_lower ''America/New_York'' = ''america/new_york'' \<and>
   (case gen_tz_lines zone_rows of Inl e \<Rightarrow> [] | Inr ls \<Rightarrow> ls ! (length header_lines + 0)) =
     ''    {\"america/new_york\", \"EST5EDT,M3.2.0,M11.1.0\"},''"
proof -
  obtain ls where ls: "gen_tz_lines zone_rows = Inr ls"
    using zone_rows_lines by blast
  have i: "0 < length zone_rows" by (simp add: zone_rows_def)
  have r: "zone_rows ! 0 = [''America/New_York'', ''EST5EDT,M3.2.0,M11.1.0'']"
    by (simp add: zone_rows_def)
  have low: "py_lower ''America/New_York'' = ''america/new_york''" by code_simp
  from entry_holds_lowered_iana_and_posix [OF ls i r] low ls
  show ?thesis by simp
qed

text \<open>
  Claim C10. For every pair of strings the emitted line is the fixed text with the
  lowercased first column and the second column put in as they are. Lowercasing leaves
  a double quote and a backslash alone, so both reach the line unescaped, as in the
  last conjunct, whose columns hold a double quote, a percent sign and a backslash.
\<close>

theorem entry_is_not_escaped:
  "entry_line [iana, posix] =
     Inr (''    {\"'' @ py_lower iana @ ''\", \"'' @ posix @ ''\"},'') \<and>
   lower_char (CHR 0x22) = CHR 0x22 \<and> lower_char (CHR 0x5C) = CHR 0x5C \<and>
   entry_line [[CHR ''A'', CHR 0x22, CHR ''B''], [CHR ''%'', CHR ''s'', CHR 0x5C, CHR 0x22]] =
     Inr (''    {\"'' @ [CHR ''a'', CHR 0x22, CHR ''b''] @ ''\", \"'' @
          [CHR ''%'', CHR ''s'', CHR 0x5C, CHR 0x22] @ ''\"},'')"
proof -
  have a: "entry_line [iana, posix] =
     Inr (''    {\"'' @ py_lower iana @ ''\", \"'' @ posix @ ''\"},'')"
    by (rule entry_line_pair)
  have b: "lower_char (CHR 0x22) = CHR 0x22" by code_simp
  have c: "lower_char (CHR 0x5C) = CHR 0x5C" by code_simp
  have d: "entry_line [[CHR ''A'', CHR 0x22, CHR ''B''], [CHR ''%'', CHR ''s'', CHR 0x5C, CHR 0x22]] =
     Inr (''    {\"'' @ [CHR ''a'', CHR 0x22, CHR ''b''] @ ''\", \"'' @
          [CHR ''%'', CHR ''s'', CHR 0x5C, CHR 0x22] @ ''\"},'')"
    by code_simp
  from a b c d show ?thesis by blast
qed

lemma py_lower_alphabet:
  "py_lower ''ABCDEFGHIJKLMNOPQRSTUVWXYZ'' = ''abcdefghijklmnopqrstuvwxyz''"
  by code_simp

lemma py_upper_alphabet:
  "py_upper ''abcdefghijklmnopqrstuvwxyz'' = ''ABCDEFGHIJKLMNOPQRSTUVWXYZ''"
  by code_simp

end
